theory Spec2Isabelle
  imports Main "HOL-Library.Sublist"
begin

section \<open>Vigilix: the dashboard's controller, embedded from internal/ui/ui.go\<close>

text \<open>
  The Go program is a Bubble Tea application: one \<open>model\<close> value, an \<open>Update\<close> function that
  folds a message into the model and returns the commands to run next, and a \<open>View\<close>.
  The embedding keeps that shape. Go strings are byte strings (\<open>string\<close>, a \<open>char list\<close>),
  Go \<open>int\<close> is \<open>int\<close> (no arithmetic of the controller leaves the range of a terminal
  size), an \<open>error\<close> is the text of \<open>err.Error()\<close>, and a \<open>nil\<close> pointer, channel or error is
  \<open>None\<close>.
\<close>

subsection \<open>systemd.Unit and the list items\<close>

record Unit =
  Name :: string
  LoadState :: string
  ActiveState :: string
  SubState :: string
  Description :: string

datatype item = Item (unit: Unit)

subsection \<open>Strings\<close>

text \<open>\<open>strings.HasPrefix\<close>, \<open>strings.Contains\<close> and \<open>strings.Join\<close> on byte strings.\<close>

fun HasPrefix :: "string \<Rightarrow> string \<Rightarrow> bool" where
  "HasPrefix s [] = True"
| "HasPrefix [] (c # cs) = False"
| "HasPrefix (x # xs) (c # cs) = (x = c \<and> HasPrefix xs cs)"

fun Contains :: "string \<Rightarrow> string \<Rightarrow> bool" where
  "Contains [] substr = HasPrefix [] substr"
| "Contains (x # xs) substr = (HasPrefix (x # xs) substr \<or> Contains xs substr)"

fun Join :: "string list \<Rightarrow> string \<Rightarrow> string" where
  "Join [] sep = []"
| "Join [x] sep = x"
| "Join (x # y # ys) sep = x @ sep @ Join (y # ys) sep"

subsection \<open>Messages and commands\<close>

text \<open>
  \<open>statsMsg\<close> is the struct of the source. The other message types of the source are the
  constructors of \<open>msg\<close>: a \<open>tea.KeyMsg\<close> is carried by its \<open>String()\<close>, which is all the
  controller reads of it; \<open>NilMsg\<close> is the \<open>nil\<close> message and \<open>OtherMsg\<close> any message type
  the type switch of \<open>Update\<close> has no case for.
\<close>

record statsMsg =
  hostname :: string
  os :: string
  uptime :: nat
  kernel :: string

datatype msg =
    KeyMsg string
  | WindowSizeMsg int int
  | UnitsMsg "Unit list"
  | LogLineMsg string
  | ConfigMsg string
  | StatsMsg statsMsg
  | ActionResultMsg "string option" string
  | SpinnerTickMsg
  | ErrMsg string
  | NilMsg
  | OtherMsg nat

text \<open>
  A \<open>tea.Cmd\<close> is a closure the runtime runs in its own goroutine; its result comes back as
  a message. The commands the controller issues are the constructors of \<open>cmd\<close>; \<open>LibCmd\<close>
  is a command returned by the \<open>Update\<close> of a sub-component (list, viewport, spinner),
  a closure of the library's own, named by a number. A log channel is named by the
  number of the subscription that made it.
\<close>

datatype action = StartUnit | StopUnit | RestartUnit

datatype cmd =
    FetchUnits
  | SpinnerTick
  | FetchStats
  | Quit
  | WaitForLogLine "nat option"
  | FetchConfig string
  | PerformAction action string string
  | LibCmd nat

text \<open>\<open>tea.Batch\<close> drops the \<open>nil\<close> commands and runs the others concurrently.\<close>

fun Batch :: "cmd option list \<Rightarrow> cmd list" where
  "Batch [] = []"
| "Batch (None # cs) = Batch cs"
| "Batch (Some c # cs) = c # Batch cs"

subsection \<open>The closures behind the commands\<close>

text \<open>
  Each function below is the body of one command of the source, applied to what its
  collaborator answered: \<open>Inl e\<close> is \<open>err != nil\<close> with \<open>err.Error() = e\<close>.
\<close>

definition fetchUnits :: "string + Unit list \<Rightarrow> msg" where
  "fetchUnits r = (case r of Inl e \<Rightarrow> ErrMsg e | Inr units \<Rightarrow> UnitsMsg units)"

definition fetchConfig :: "string \<Rightarrow> string + string \<Rightarrow> msg" where
  "fetchConfig name r =
     (case r of Inl e \<Rightarrow> ConfigMsg (''Error reading config: '' @ e)
              | Inr content \<Rightarrow> ConfigMsg content)"

definition fetchStats :: "string + statsMsg \<Rightarrow> msg" where
  "fetchStats r =
     (case r of
        Inl e \<Rightarrow> StatsMsg \<lparr>hostname = ''Unknown'', os = ''Unknown'', uptime = 0, kernel = ''''\<rparr>
      | Inr info \<Rightarrow> StatsMsg info)"

text \<open>The outcome of the receive \<open>line, ok := <-sub\<close> once it returns.\<close>

datatype recv = Received string | ChanClosed

definition waitForLogLine :: "nat option \<Rightarrow> recv \<Rightarrow> msg" where
  "waitForLogLine sub r =
     (case sub of
        None \<Rightarrow> NilMsg
      | Some c \<Rightarrow> (case r of ChanClosed \<Rightarrow> NilMsg | Received line \<Rightarrow> LogLineMsg line))"

definition performAction :: "string option \<Rightarrow> string \<Rightarrow> msg" where
  "performAction e actionName = ActionResultMsg e actionName"

subsection \<open>The sub-components\<close>

text \<open>
  The list, the viewport and the spinner are components of the Bubbles library, which is
  not part of the repository. Each is a record of the fields the controller reads or
  assigns. Their own \<open>Update\<close> methods, the list's handling of an index that its new
  items leave out of range, the viewport's \<open>SetContent\<close>, \<open>GotoBottom\<close> and
  \<open>GotoTop\<close>, Go's \<open>strings.ToLower\<close> and the floating-point product
  \<open>int(float64(contentWidth) * 0.35)\<close> are parameters of the embedding (the record \<open>lib\<close>):
  every theorem that mentions \<open>lib\<close> holds whatever these do.
\<close>

record list_model =
  items :: "item list"
  index :: int
  listTitle :: string
  listWidth :: int
  listHeight :: int
  settingFilter :: bool

record viewport_model =
  vpWidth :: int
  vpHeight :: int
  vpContent :: string
  YOffset :: int

record lib =
  list_Update :: "list_model \<Rightarrow> msg \<Rightarrow> list_model \<times> nat option"
  list_clampIndex :: "int \<Rightarrow> nat \<Rightarrow> int"
  viewport_Update :: "viewport_model \<Rightarrow> msg \<Rightarrow> viewport_model \<times> nat option"
  viewport_SetContent :: "viewport_model \<Rightarrow> string \<Rightarrow> viewport_model"
  viewport_GotoBottom :: "viewport_model \<Rightarrow> viewport_model"
  viewport_GotoTop :: "viewport_model \<Rightarrow> viewport_model"
  spinner_Update :: "nat \<Rightarrow> msg \<Rightarrow> nat \<times> nat option"
  ToLower :: "string \<Rightarrow> string"
  scale35 :: "int \<Rightarrow> int"

text \<open>
  \<open>SetItems\<close> replaces the items. The list component takes the items as they are given
  and then restores the index it had: an index that still points into the new items is
  kept; for one that no longer does, the component's pagination decides
  (\<open>list_clampIndex\<close>, a parameter). \<open>SelectedItem\<close> is the item at the index, \<open>nil\<close> when
  the index is out of range.
\<close>

definition SetItems :: "lib \<Rightarrow> list_model \<Rightarrow> item list \<Rightarrow> list_model" where
  "SetItems L l i =
     l\<lparr>items := i,
       index := (if 0 \<le> index l \<and> index l < int (length i) then index l
                 else list_clampIndex L (index l) (length i))\<rparr>"

definition SelectedItem :: "list_model \<Rightarrow> item option" where
  "SelectedItem l =
     (if index l < 0 \<or> length (items l) = 0 \<or> int (length (items l)) \<le> index l then None
      else Some (items l ! nat (index l)))"

definition SetSize :: "list_model \<Rightarrow> int \<Rightarrow> int \<Rightarrow> list_model" where
  "SetSize l w h = l\<lparr>listWidth := w, listHeight := h\<rparr>"

subsection \<open>The model\<close>

datatype pane = PaneList | PaneContent

datatype mode = ModeDashboard | ModeList | ModeLogs | ModeConfig

text \<open>
  \<open>logCtx\<close>, \<open>logCancel\<close> and \<open>logChan\<close> are made together by \<open>startStreaming\<close>; each holds the
  number of the subscription it belongs to.
\<close>

record model =
  list :: list_model
  viewport :: viewport_model
  helpWidth :: int
  spinner :: nat
  activePane :: pane
  viewMode :: mode
  devMode :: bool
  width :: int
  height :: int
  allUnits :: "Unit list"
  logLines :: "string list"
  configContent :: string
  streamingUnit :: string
  stats :: statsMsg
  logCtx :: "nat option"
  logCancel :: "nat option"
  logChan :: "nat option"
  err :: "string option"
  statusMessage :: string

text \<open>
  What \<open>startStreaming\<close> and the quit key do outside the model: \<open>nextId\<close> numbers the
  subscriptions made so far (\<open>context.WithCancel\<close> and \<open>make(chan string)\<close> return fresh
  objects), \<open>cancelled\<close> lists the contexts whose cancel function was called, and \<open>streams\<close>
  the goroutines started, each running \<open>systemd.StreamLogs\<close> for a unit name on the
  context and channel of its subscription.
\<close>

record world =
  nextId :: nat
  cancelled :: "nat list"
  streams :: "(nat \<times> string) list"

definition NewModel :: model where
  "NewModel =
     \<lparr>list = \<lparr>items = [], index = 0, listTitle = ''Units'', listWidth = 0, listHeight = 0,
               settingFilter = False\<rparr>,
      viewport = \<lparr>vpWidth = 0, vpHeight = 0, vpContent = [], YOffset = 0\<rparr>,
      helpWidth = 0,
      spinner = 0,
      activePane = PaneList,
      viewMode = ModeDashboard,
      devMode = True,
      width = 0,
      height = 0,
      allUnits = [],
      logLines = [],
      configContent = [],
      streamingUnit = [],
      stats = \<lparr>hostname = [], os = [], uptime = 0, kernel = []\<rparr>,
      logCtx = None,
      logCancel = None,
      logChan = None,
      err = None,
      statusMessage = ''Ready''\<rparr>"

definition Init :: "cmd list" where
  "Init = Batch [Some FetchUnits, Some SpinnerTick, Some FetchStats]"

subsection \<open>updateListItems\<close>

definition devKeywords :: "string list" where
  "devKeywords = [''docker'', ''mongo'', ''postgres'', ''mysql'', ''redis'', ''nginx'', ''apache'',
     ''node'', ''python'', ''go'', ''java'', ''php'', ''ruby'', ''rust'', ''app'', ''api'',
     ''service'', ''web'', ''worker'', ''db'']"

text \<open>The inner loop: \<open>isDev\<close> becomes true at the first keyword the lowered name contains.\<close>

fun isDev :: "string \<Rightarrow> string list \<Rightarrow> bool" where
  "isDev name [] = False"
| "isDev name (kw # kws) = (if Contains name kw then True else isDev name kws)"

text \<open>The outer loop over \<open>m.allUnits\<close>, with \<open>filtered\<close> as it grows.\<close>

fun filterUnits :: "lib \<Rightarrow> bool \<Rightarrow> Unit list \<Rightarrow> item list \<Rightarrow> item list" where
  "filterUnits L dev [] filtered = filtered"
| "filterUnits L dev (u # us) filtered =
     (if dev then
        (if isDev (ToLower L (Name u)) devKeywords
         then filterUnits L dev us (filtered @ [Item u])
         else filterUnits L dev us filtered)
      else filterUnits L dev us (filtered @ [Item u]))"

definition rocket :: string where
  "rocket = [CHR 0xF0, CHR 0x9F, CHR 0x9A, CHR 0x80]"

definition updateListItems :: "lib \<Rightarrow> model \<Rightarrow> model" where
  "updateListItems L m =
     (let filtered = filterUnits L (devMode m) (allUnits m) [];
          l = SetItems L (list m) filtered;
          title = (if devMode m then ''Dev Services '' @ rocket else ''System Units'')
      in m\<lparr>list := l\<lparr>listTitle := title\<rparr>\<rparr>)"

subsection \<open>startStreaming\<close>

definition startStreaming :: "string \<Rightarrow> model \<times> world \<Rightarrow> model \<times> world" where
  "startStreaming name s =
     (case s of (m, w) \<Rightarrow>
        if streamingUnit m = name then (m, w)
        else
          let w1 = (case logCancel m of None \<Rightarrow> w
                    | Some c \<Rightarrow> w\<lparr>cancelled := cancelled w @ [c]\<rparr>);
              k = nextId w1
          in (m\<lparr>logLines := [], streamingUnit := name,
                 logCtx := Some k, logCancel := Some k, logChan := Some k\<rparr>,
              w1\<lparr>nextId := Suc k, streams := streams w1 @ [(k, name)]\<rparr>))"

subsection \<open>Update\<close>

text \<open>
  The key switch of the list pane, up to the call of the list's own \<open>Update\<close>: the new
  state and the commands appended to \<open>cmds\<close>.
\<close>

definition selectedName :: "model \<Rightarrow> string option" where
  "selectedName m = map_option (\<lambda>i. Name (unit i)) (SelectedItem (list m))"

definition keyPaneList :: "string \<Rightarrow> model \<times> world \<Rightarrow> (model \<times> world) \<times> cmd option list" where
  "keyPaneList k s =
     (case s of (m, w) \<Rightarrow>
        if k = ''enter'' then
          (let m1 = m\<lparr>viewMode := ModeLogs, activePane := PaneContent\<rparr> in
           case selectedName m1 of
             Some name \<Rightarrow>
               (let s2 = startStreaming name (m1, w)
                in (s2, [Some (WaitForLogLine (logChan (fst s2)))]))
           | None \<Rightarrow> ((m1, w), []))
        else if k = ''c'' then
          (let m1 = m\<lparr>viewMode := ModeConfig, activePane := PaneContent\<rparr> in
           case selectedName m1 of
             Some name \<Rightarrow> ((m1, w), [Some (FetchConfig name)])
           | None \<Rightarrow> ((m1, w), []))
        else if k = ''s'' then
          (case selectedName m of
             Some name \<Rightarrow> ((m, w), [Some (PerformAction StartUnit name ''Started'')])
           | None \<Rightarrow> ((m, w), []))
        else if k = ''x'' then
          (case selectedName m of
             Some name \<Rightarrow> ((m, w), [Some (PerformAction StopUnit name ''Stopped'')])
           | None \<Rightarrow> ((m, w), []))
        else if k = ''r'' then
          (case selectedName m of
             Some name \<Rightarrow> ((m, w), [Some (PerformAction RestartUnit name ''Restarted'')])
           | None \<Rightarrow> ((m, w), []))
        else ((m, w), []))"

definition UpdateKey :: "lib \<Rightarrow> string \<Rightarrow> model \<times> world \<Rightarrow> (model \<times> world) \<times> cmd list" where
  "UpdateKey L k s =
     (case s of (m, w) \<Rightarrow>
        if k = ''q'' \<or> k = ''ctrl+c'' then
          ((m, (case logCancel m of None \<Rightarrow> w
                | Some c \<Rightarrow> w\<lparr>cancelled := cancelled w @ [c]\<rparr>)), [Quit])
        else if viewMode m = ModeDashboard then
          (if k = ''enter'' \<or> k = ''space'' \<or> k = ''tab'' \<or> k = ''l'' \<or> k = ''right''
           then ((m\<lparr>viewMode := ModeList, activePane := PaneList\<rparr>, w), [])
           else ((m, w), []))
        else if k = ''tab'' then
          ((m\<lparr>activePane := (if activePane m = PaneList then PaneContent else PaneList)\<rparr>, w),
           [])
        else if k = ''d'' then
          (let m1 = updateListItems L (m\<lparr>devMode := \<not> devMode m\<rparr>)
           in ((m1\<lparr>statusMessage :=
                      ''Dev Mode: '' @ (if devMode m1 then ''true'' else ''false'')\<rparr>, w), []))
        else if activePane m = PaneList \<and> settingFilter (list m) then
          (case list_Update L (list m) (KeyMsg k) of
             (l, c) \<Rightarrow> ((m\<lparr>list := l\<rparr>, w), Batch [map_option LibCmd c]))
        else
          (case activePane m of
             PaneList \<Rightarrow>
               (case keyPaneList k (m, w) of
                  ((m1, w1), cmds) \<Rightarrow>
                    (case list_Update L (list m1) (KeyMsg k) of
                       (l, c) \<Rightarrow>
                         ((m1\<lparr>list := l\<rparr>, w1), Batch (cmds @ [map_option LibCmd c]))))
           | PaneContent \<Rightarrow>
               if k = ''esc'' then ((m\<lparr>activePane := PaneList\<rparr>, w), [])
               else
                 (case viewport_Update L (viewport m) (KeyMsg k) of
                    (v, c) \<Rightarrow> ((m\<lparr>viewport := v\<rparr>, w), Batch [map_option LibCmd c]))))"

text \<open>
  The \<open>logLineMsg\<close> case. \<open>m.logLines[len(m.logLines)-1000:]\<close> keeps the last 1000 lines.
\<close>

definition appendLogLine :: "lib \<Rightarrow> string \<Rightarrow> model \<Rightarrow> model" where
  "appendLogLine L line m =
     (if line \<noteq> [] then
        (let ls = logLines m @ [line];
             ls' = (if length ls > 1000 then drop (length ls - 1000) ls else ls);
             m1 = m\<lparr>logLines := ls'\<rparr>
         in if viewMode m1 = ModeLogs
            then m1\<lparr>viewport :=
                      viewport_GotoBottom L
                        (viewport_SetContent L (viewport m1) (Join (logLines m1) [CHR 0x0A]))\<rparr>
            else m1)
      else m)"

fun Update :: "lib \<Rightarrow> msg \<Rightarrow> model \<times> world \<Rightarrow> (model \<times> world) \<times> cmd list" where
  "Update L (KeyMsg k) (m, w) = UpdateKey L k (m, w)"
| "Update L (WindowSizeMsg mw mh) (m, w) =
     (let m1 = m\<lparr>width := mw, height := mh, helpWidth := mw\<rparr>;
          contentHeight = height m1 - 4;
          contentWidth = width m1 - 4;
          sidebarWidth = scale35 L contentWidth;
          mainWidth = contentWidth - sidebarWidth;
          headerHeight = 2
      in ((m1\<lparr>list := SetSize (list m1) (sidebarWidth - 2) (contentHeight - 4 - headerHeight),
               viewport := (viewport m1)\<lparr>vpWidth := mainWidth - 2,
                                          vpHeight := contentHeight - 4\<rparr>\<rparr>, w),
          Batch []))"
| "Update L (UnitsMsg units) (m, w) =
     ((updateListItems L (m\<lparr>allUnits := units\<rparr>), w), Batch [None])"
| "Update L (LogLineMsg line) (m, w) =
     (let m1 = appendLogLine L line m
      in ((m1, w), Batch [Some (WaitForLogLine (logChan m1))]))"
| "Update L (ConfigMsg content) (m, w) =
     (let m1 = m\<lparr>configContent := content\<rparr>
      in ((if viewMode m1 = ModeConfig
           then m1\<lparr>viewport :=
                     viewport_GotoTop L (viewport_SetContent L (viewport m1) (configContent m1))\<rparr>
           else m1, w),
          Batch []))"
| "Update L (StatsMsg st) (m, w) = ((m\<lparr>stats := st\<rparr>, w), Batch [])"
| "Update L (ActionResultMsg e act) (m, w) =
     (case e of
        Some text \<Rightarrow> ((m\<lparr>statusMessage := ''Error: '' @ text\<rparr>, w), Batch [])
      | None \<Rightarrow> ((m\<lparr>statusMessage := act @ '' unit.''\<rparr>, w), Batch [Some FetchUnits]))"
| "Update L SpinnerTickMsg (m, w) =
     (case spinner_Update L (spinner m) SpinnerTickMsg of
        (sp, c) \<Rightarrow> ((m\<lparr>spinner := sp\<rparr>, w), Batch [map_option LibCmd c]))"
| "Update L (ErrMsg e) (m, w) = ((m, w), Batch [])"
| "Update L NilMsg (m, w) = ((m, w), Batch [])"
| "Update L (OtherMsg n) (m, w) = ((m, w), Batch [])"

subsection \<open>Folding a sequence of messages\<close>

text \<open>The runtime calls \<open>Update\<close> once per message, in arrival order.\<close>

fun UpdateAll :: "lib \<Rightarrow> msg list \<Rightarrow> model \<times> world \<Rightarrow> model \<times> world" where
  "UpdateAll L [] s = s"
| "UpdateAll L (e # es) s = UpdateAll L es (fst (Update L e s))"

text \<open>
  The FilteredView of the specification: the units shown under the current filter
  setting, in the order of the collection.
\<close>

definition FilteredView :: "lib \<Rightarrow> bool \<Rightarrow> Unit list \<Rightarrow> item list" where
  "FilteredView L dev us =
     map Item (filter (\<lambda>u. if dev then isDev (ToLower L (Name u)) devKeywords else True) us)"

subsection \<open>The row renderer and the widths of View\<close>

text \<open>
  Lipgloss is a library too. \<open>gWidth\<close> is \<open>lipgloss.Width\<close>, the number of terminal cells of
  a string, \<open>gRender\<close> is \<open>Style.Render\<close> for the styles the renderer builds, and \<open>gToUpper\<close>
  is \<open>strings.ToUpper\<close>; all three are parameters.
\<close>

datatype style = TitleStyle bool | DescStyle bool | BadgeStyle string | ItemStyle bool int

record gloss =
  gWidth :: "string \<Rightarrow> int"
  gRender :: "style \<Rightarrow> string \<Rightarrow> string"
  gToUpper :: "string \<Rightarrow> string"

text \<open>
  The selected row has \<open>PaddingLeft(1)\<close> and a left border of one cell, the others
  \<open>PaddingLeft(2)\<close>.
\<close>

definition GetHorizontalFrameSize :: "bool \<Rightarrow> int" where
  "GetHorizontalFrameSize isSelected = (if isSelected then 1 + 1 else 2)"

text \<open>The two run-time panics the renderer could raise.\<close>

datatype panic = SliceBoundsOutOfRange | NegativeRepeatCount

definition sliceTo :: "string \<Rightarrow> int \<Rightarrow> panic + string" where
  "sliceTo s n =
     (if 0 \<le> n \<and> n \<le> int (length s) then Inr (take (nat n) s) else Inl SliceBoundsOutOfRange)"

definition Repeat :: "string \<Rightarrow> int \<Rightarrow> panic + string" where
  "Repeat s count =
     (if count < 0 then Inl NegativeRepeatCount else Inr (concat (replicate (nat count) s)))"

definition icons :: "(string list \<times> string) list" where
  "icons =
     [([''docker''], [CHR 0xF0, CHR 0x9F, CHR 0x90, CHR 0xB3]),
      ([''mongo''], [CHR 0xF0, CHR 0x9F, CHR 0x8D, CHR 0x83]),
      ([''postgres'', ''psql''], [CHR 0xF0, CHR 0x9F, CHR 0x90, CHR 0x98]),
      ([''mysql'', ''mariadb''], [CHR 0xF0, CHR 0x9F, CHR 0x90, CHR 0xAC]),
      ([''redis''], [CHR 0xF0, CHR 0x9F, CHR 0x94, CHR 0xBA]),
      ([''nginx''], [CHR 0xF0, CHR 0x9F, CHR 0x8C, CHR 0x90]),
      ([''apache'', ''httpd''], [CHR 0xF0, CHR 0x9F, CHR 0xAA, CHR 0xB6]),
      ([''ssh''], [CHR 0xF0, CHR 0x9F, CHR 0x94, CHR 0x92]),
      ([''node'', ''npm''], [CHR 0xF0, CHR 0x9F, CHR 0x9F, CHR 0xA2]),
      ([''python''], [CHR 0xF0, CHR 0x9F, CHR 0x90, CHR 0x8D]),
      ([''go''], [CHR 0xF0, CHR 0x9F, CHR 0x90, CHR 0xB9])]"

text \<open>The chain of \<open>if\<close>s of \<open>Title\<close>: every test is made, a later match overwrites the icon.\<close>

fun pickIcon :: "string \<Rightarrow> (string list \<times> string) list \<Rightarrow> string \<Rightarrow> string" where
  "pickIcon name [] icon = icon"
| "pickIcon name ((kws, i) # rest) icon =
     pickIcon name rest (if list_ex (Contains name) kws then i else icon)"

definition Title :: "lib \<Rightarrow> item \<Rightarrow> string" where
  "Title L i =
     pickIcon (ToLower L (Name (unit i))) icons [CHR 0xF0, CHR 0x9F, CHR 0x93, CHR 0xA6]
       @ '' '' @ Name (unit i)"

text \<open>
  The truncation the renderer writes out twice, for the title against
  \<open>availableTitleWidth\<close> and for the description against \<open>innerWidth\<close>.
\<close>

definition truncateTo :: "gloss \<Rightarrow> string \<Rightarrow> int \<Rightarrow> panic + string" where
  "truncateTo G s avail =
     (if gWidth G s > avail then
        (if avail > 3 then
           (case sliceTo s (avail - 3) of Inl p \<Rightarrow> Inl p | Inr t \<Rightarrow> Inr (t @ ''...''))
         else Inr [])
      else Inr s)"

definition innerWidthOf :: "list_model \<Rightarrow> bool \<Rightarrow> int" where
  "innerWidthOf m isSelected =
     (let totalWidth = (if listWidth m \<le> 0 then 40 else listWidth m);
          innerWidth = totalWidth - GetHorizontalFrameSize isSelected
      in if innerWidth < 0 then 0 else innerWidth)"

definition Render :: "lib \<Rightarrow> gloss \<Rightarrow> list_model \<Rightarrow> int \<Rightarrow> item \<Rightarrow> panic + string" where
  "Render L G m idx i =
     (let statusBadge = gRender G (BadgeStyle (ActiveState (unit i)))
                          (gToUpper G (ActiveState (unit i)));
          isSelected = (idx = index m);
          innerWidth = innerWidthOf m isSelected;
          badgeWidth = gWidth G statusBadge;
          availableTitleWidth = innerWidth - badgeWidth - 2
      in case truncateTo G (Title L i) availableTitleWidth of
           Inl p \<Rightarrow> Inl p
         | Inr titleStr \<Rightarrow>
             (let left1 = gRender G (TitleStyle isSelected) titleStr;
                  gapSize = innerWidth - gWidth G left1 - badgeWidth;
                  gapSize' = (if gapSize < 0 then 0 else gapSize)
              in case Repeat '' '' gapSize' of
                   Inl p \<Rightarrow> Inl p
                 | Inr gap \<Rightarrow>
                     (let line1 = left1 @ gap @ statusBadge
                      in case truncateTo G (Description (unit i)) innerWidth of
                           Inl p \<Rightarrow> Inl p
                         | Inr descStr \<Rightarrow>
                             (let line2 = gRender G (DescStyle isSelected) descStr;
                                  content = line1 @ [CHR 0x0A] @ line2
                              in Inr (gRender G (ItemStyle isSelected innerWidth) content)))))"

text \<open>
  The widths \<open>View\<close> computes for the main screen, from the model and from the measured
  widths of the header texts, the two tabs and the header info.
\<close>

record layout =
  contentHeight :: int
  contentWidth :: int
  sidebarWidth :: int
  mainWidth :: int
  listContentWidth :: int
  spacerWidth :: int
  lineLen :: int


subsection \<open>The controller with its outstanding commands\<close>

text \<open>
  \<open>systemd.StreamLogs\<close> sends each scanned line inside
  \<^verbatim>\<open>select { case <-ctx.Done(): return nil; case out <- text: }\<close>.
  The channel is unbuffered, so the send can proceed exactly when a \<open>waitForLogLine\<close>
  goroutine is blocked in \<open><-sub\<close> on it; the other case can proceed once the context is
  cancelled. \<open>StreamLogs_select\<close> lists the cases that can proceed; when both can, Go takes
  either.
\<close>

datatype select_case = CtxDone | SendLine

definition StreamLogs_select :: "bool \<Rightarrow> bool \<Rightarrow> select_case list" where
  "StreamLogs_select ctxCancelled receiverWaiting =
     (if ctxCancelled then [CtxDone] else []) @ (if receiverWaiting then [SendLine] else [])"

text \<open>
  A configuration is the model, the world and the commands issued and not yet
  answered. Two kinds of event move it. \<open>Deliver e\<close>: a message that is not a log line
  (a key, a window size, the answer of another command) is folded by \<open>Update\<close>.
  \<open>LineFrom ch line\<close>: the \<open>StreamLogs\<close> goroutine of subscription \<open>ch\<close> sends \<open>line\<close>, an
  outstanding \<open>waitForLogLine\<close> on that channel receives it, and its message is folded by
  \<open>Update\<close>. The commands \<open>Update\<close> returns join the outstanding ones. An event that
  cannot happen in a configuration gives \<open>None\<close>.
\<close>

record config =
  ctl :: model
  env :: world
  pending :: "cmd list"

datatype event = Deliver msg | LineFrom nat string

fun isLogLine :: "msg \<Rightarrow> bool" where
  "isLogLine (LogLineMsg line) = True"
| "isLogLine e = False"

definition fold_msg :: "lib \<Rightarrow> msg \<Rightarrow> cmd list \<Rightarrow> config \<Rightarrow> config" where
  "fold_msg L e ps c =
     (case Update L e (ctl c, env c) of
        ((m, w), cmds) \<Rightarrow> \<lparr>ctl = m, env = w, pending = ps @ cmds\<rparr>)"

fun step :: "lib \<Rightarrow> event \<Rightarrow> config \<Rightarrow> config option" where
  "step L (Deliver e) c = (if isLogLine e then None else Some (fold_msg L e (pending c) c))"
| "step L (LineFrom ch line) c =
     (if ch \<in> set (map fst (streams (env c))) \<and>
         SendLine \<in> set (StreamLogs_select (ch \<in> set (cancelled (env c)))
                            (WaitForLogLine (Some ch) \<in> set (pending c)))
      then Some (fold_msg L (waitForLogLine (Some ch) (Received line))
                   (remove1 (WaitForLogLine (Some ch)) (pending c)) c)
      else None)"

fun run :: "lib \<Rightarrow> event list \<Rightarrow> config \<Rightarrow> config option" where
  "run L [] c = Some c"
| "run L (e # es) c = (case step L e c of None \<Rightarrow> None | Some c' \<Rightarrow> run L es c')"

text \<open>The lines subscription \<open>ch\<close> delivers in a run, and the waits outstanding on it.\<close>

fun linesFrom :: "nat \<Rightarrow> event list \<Rightarrow> string list" where
  "linesFrom ch [] = []"
| "linesFrom ch (Deliver e # es) = linesFrom ch es"
| "linesFrom ch (LineFrom ch' line # es) =
     (if ch' = ch then line # linesFrom ch es else linesFrom ch es)"

definition waits :: "nat \<Rightarrow> config \<Rightarrow> nat" where
  "waits ch c = count_list (pending c) (WaitForLogLine (Some ch))"

text \<open>
  Subscriptions are numbered as they are made: every subscription the model or an
  outstanding wait refers to has been made.
\<close>

definition made :: "config \<Rightarrow> bool" where
  "made c =
     ((case logChan (ctl c) of None \<Rightarrow> True | Some k \<Rightarrow> k < nextId (env c)) \<and>
      list_all (\<lambda>p. case p of WaitForLogLine (Some k) \<Rightarrow> k < nextId (env c) | _ \<Rightarrow> True)
        (pending c))"

subsection \<open>A concrete setting\<close>

text \<open>
  An instance of the library parameters for running the definitions on concrete
  inputs: a list whose cursor follows the up and down keys, a viewport that stores its
  content, lower and upper case on ASCII letters, exact arithmetic for the sidebar
  share, and strings of ASCII characters measured by their length and rendered
  without styling.
\<close>

definition lowerByte :: "char \<Rightarrow> char" where
  "lowerByte c =
     (if (65::nat) \<le> of_char c \<and> of_char c \<le> (90::nat)
      then (case c of Char b0 b1 b2 b3 b4 b5 b6 b7 \<Rightarrow> Char b0 b1 b2 b3 b4 True b6 b7)
      else c)"


definition cursorKeys :: "list_model \<Rightarrow> msg \<Rightarrow> list_model \<times> nat option" where
  "cursorKeys l e =
     (case e of
        KeyMsg k \<Rightarrow>
          if (k = ''down'' \<or> k = ''j'') \<and> index l + 1 < int (length (items l))
          then (l\<lparr>index := index l + 1\<rparr>, None)
          else if (k = ''up'' \<or> k = ''k'') \<and> 0 < index l
          then (l\<lparr>index := index l - 1\<rparr>, None)
          else (l, None)
      | _ \<Rightarrow> (l, None))"

definition refLib :: lib where
  "refLib =
     \<lparr>list_Update = cursorKeys,
      list_clampIndex = (\<lambda>i n. i),
      viewport_Update = (\<lambda>v e. (v, None)),
      viewport_SetContent = (\<lambda>v s. v\<lparr>vpContent := s\<rparr>),
      viewport_GotoBottom = (\<lambda>v. v),
      viewport_GotoTop = (\<lambda>v. v\<lparr>YOffset := 0\<rparr>),
      spinner_Update = (\<lambda>n e. (Suc n, Some 0)),
      ToLower = map lowerByte,
      scale35 = (\<lambda>c. if 0 \<le> c then (c * 35) div 100 else - ((- c * 35) div 100))\<rparr>"


definition world0 :: world where
  "world0 = \<lparr>nextId = 0, cancelled = [], streams = []\<rparr>"

definition config0 :: config where
  "config0 = \<lparr>ctl = NewModel, env = world0, pending = Init\<rparr>"

definition mkUnit :: "string \<Rightarrow> string \<Rightarrow> string \<Rightarrow> Unit" where
  "mkUnit n a d =
     \<lparr>Name = n, LoadState = ''loaded'', ActiveState = a, SubState = ''running'',
      Description = d\<rparr>"

definition docker :: Unit where
  "docker = mkUnit ''docker.service'' ''active'' ''Docker Application Container Engine''"

definition nginx :: Unit where
  "nginx = mkUnit ''nginx.service'' ''active'' ''A high performance web server''"

definition cron :: Unit where
  "cron = mkUnit ''cron.timer'' ''inactive'' ''Daily cleanup''"

text \<open>
  Two states reached from the initial model: \<open>listed\<close>, after a service list arrived and
  the dashboard was left; \<open>streaming\<close>, after the logs of the first unit shown were
  opened, one line arrived and focus went back to the list.
\<close>

definition listed :: "model \<times> world" where
  "listed = UpdateAll refLib [UnitsMsg [docker, cron, nginx], KeyMsg ''enter'']
              (NewModel, world0)"

definition streaming :: "model \<times> world" where
  "streaming = UpdateAll refLib [KeyMsg ''enter'', LogLineMsg ''Started.'', KeyMsg ''esc'']
                 listed"

text \<open>
  From \<open>listed\<close>: \<open>onSecond\<close>, after the cursor moved down to the second unit shown;
  \<open>configuring\<close>, after the configuration of the first unit was asked for.
\<close>

definition onSecond :: "model \<times> world" where
  "onSecond = UpdateAll refLib [KeyMsg ''down''] listed"

definition configuring :: "model \<times> world" where
  "configuring = UpdateAll refLib [KeyMsg ''c''] listed"

text \<open>
  A run of the controller with its commands: a service list arrives, the dashboard is
  left, the logs of \<open>docker.service\<close> are opened (subscription 0), focus goes back to the
  list, the cursor moves down and the logs of \<open>nginx.service\<close> are opened (subscription 1).
  \<open>switched\<close> is the configuration after it, \<open>late\<close> the one after subscription 0 has
  delivered one more line.
\<close>

definition switch_run :: "event list" where
  "switch_run =
     [Deliver (UnitsMsg [docker, cron, nginx]), Deliver (KeyMsg ''enter''),
      Deliver (KeyMsg ''enter''), Deliver (KeyMsg ''esc''), Deliver (KeyMsg ''down''),
      Deliver (KeyMsg ''enter'')]"

definition switched :: config where
  "switched = (case run refLib switch_run config0 of Some c \<Rightarrow> c | None \<Rightarrow> config0)"

definition late :: config where
  "late = (case run refLib [LineFrom 0 ''docker: late line''] switched of
             Some c \<Rightarrow> c | None \<Rightarrow> switched)"


definition startup :: "msg list" where
  "startup = [WindowSizeMsg 80 24, fetchStats (Inl ''not implemented yet''), SpinnerTickMsg]"

text \<open>A scripted stream of \<open>n\<close> distinct, non-empty lines: \<open>x\<close>, \<open>xx\<close>, \<open>xxx\<close>, ...\<close>

definition numbered :: "nat \<Rightarrow> string list" where
  "numbered n = map (\<lambda>k. replicate (Suc k) (CHR ''x'')) [0..<n]"

section \<open>Properties\<close>

subsection \<open>The filter loop\<close>

lemma filterUnits_eq:
  "filterUnits L dev us acc = acc @ FilteredView L dev us"
proof (cases dev)
  case True
  then show ?thesis by (induction us arbitrary: acc) (simp_all add: FilteredView_def)
next
  case False
  then show ?thesis by (induction us arbitrary: acc) (simp_all add: FilteredView_def)
qed

lemma items_updateListItems:
  "items (list (updateListItems L m)) = FilteredView L (devMode m) (allUnits m)"
  by (simp add: updateListItems_def SetItems_def filterUnits_eq Let_def)

lemma index_updateListItems:
  "index (list (updateListItems L m)) =
     (if 0 \<le> index (list m) \<and>
         index (list m) < int (length (FilteredView L (devMode m) (allUnits m)))
      then index (list m)
      else list_clampIndex L (index (list m))
             (length (FilteredView L (devMode m) (allUnits m))))"
  by (simp add: updateListItems_def SetItems_def filterUnits_eq Let_def)

lemma updateListItems_frame:
  "allUnits (updateListItems L m) = allUnits m"
  "devMode (updateListItems L m) = devMode m"
  "logLines (updateListItems L m) = logLines m"
  "statusMessage (updateListItems L m) = statusMessage m"
  "logChan (updateListItems L m) = logChan m"
  "viewMode (updateListItems L m) = viewMode m"
  by (simp_all add: updateListItems_def Let_def)

lemma subseq_FilteredView: "subseq (map unit (FilteredView L dev us)) us"
  by (simp add: FilteredView_def comp_def)

lemma isDev_iff: "isDev name kws \<longleftrightarrow> (\<exists>kw \<in> set kws. Contains name kw)"
  by (induction kws) auto

lemma HasPrefix_iff: "HasPrefix s p \<longleftrightarrow> prefix p s"
  by (induction s p rule: HasPrefix.induct) auto

lemma Contains_iff: "Contains s p \<longleftrightarrow> sublist p s"
  by (induction s) (auto simp: HasPrefix_iff sublist_Cons_right)

subsection \<open>The key switch, branch by branch\<close>

lemma selectedName_upd [simp]:
  "selectedName (m\<lparr>viewMode := v, activePane := p\<rparr>) = selectedName m"
  by (simp add: selectedName_def)

lemma UpdateKey_quit:
  "k = ''q'' \<or> k = ''ctrl+c'' \<Longrightarrow>
   UpdateKey L k (m, w) =
     ((m, (case logCancel m of None \<Rightarrow> w | Some c \<Rightarrow> w\<lparr>cancelled := cancelled w @ [c]\<rparr>)),
      [Quit])"
  by (simp add: UpdateKey_def)

lemma UpdateKey_dashboard:
  "\<not> (k = ''q'' \<or> k = ''ctrl+c'') \<Longrightarrow> viewMode m = ModeDashboard \<Longrightarrow>
   UpdateKey L k (m, w) =
     (if k = ''enter'' \<or> k = ''space'' \<or> k = ''tab'' \<or> k = ''l'' \<or> k = ''right''
      then ((m\<lparr>viewMode := ModeList, activePane := PaneList\<rparr>, w), [])
      else ((m, w), []))"
  by (simp add: UpdateKey_def)

lemma UpdateKey_tab:
  "viewMode m \<noteq> ModeDashboard \<Longrightarrow>
   UpdateKey L ''tab'' (m, w) =
     ((m\<lparr>activePane := (if activePane m = PaneList then PaneContent else PaneList)\<rparr>, w), [])"
  by (simp add: UpdateKey_def)

lemma UpdateKey_d:
  "viewMode m \<noteq> ModeDashboard \<Longrightarrow>
   UpdateKey L ''d'' (m, w) =
     (((updateListItems L (m\<lparr>devMode := \<not> devMode m\<rparr>))
         \<lparr>statusMessage := ''Dev Mode: '' @ (if \<not> devMode m then ''true'' else ''false'')\<rparr>, w),
      [])"
  by (simp add: UpdateKey_def Let_def updateListItems_frame)

lemma UpdateKey_filtering:
  "\<not> (k = ''q'' \<or> k = ''ctrl+c'') \<Longrightarrow> viewMode m \<noteq> ModeDashboard \<Longrightarrow> k \<noteq> ''tab'' \<Longrightarrow>
   k \<noteq> ''d'' \<Longrightarrow> activePane m = PaneList \<Longrightarrow> settingFilter (list m) \<Longrightarrow>
   UpdateKey L k (m, w) =
     ((m\<lparr>list := fst (list_Update L (list m) (KeyMsg k))\<rparr>, w),
      Batch [map_option LibCmd (snd (list_Update L (list m) (KeyMsg k)))])"
  by (simp add: UpdateKey_def split: prod.splits)

lemma UpdateKey_list:
  "\<not> (k = ''q'' \<or> k = ''ctrl+c'') \<Longrightarrow> viewMode m \<noteq> ModeDashboard \<Longrightarrow> k \<noteq> ''tab'' \<Longrightarrow>
   k \<noteq> ''d'' \<Longrightarrow> activePane m = PaneList \<Longrightarrow> \<not> settingFilter (list m) \<Longrightarrow>
   keyPaneList k (m, w) = ((m1, w1), ks) \<Longrightarrow>
   UpdateKey L k (m, w) =
     ((m1\<lparr>list := fst (list_Update L (list m1) (KeyMsg k))\<rparr>, w1),
      Batch (ks @ [map_option LibCmd (snd (list_Update L (list m1) (KeyMsg k)))]))"
  by (simp add: UpdateKey_def split: prod.splits)

lemma UpdateKey_content:
  "\<not> (k = ''q'' \<or> k = ''ctrl+c'') \<Longrightarrow> viewMode m \<noteq> ModeDashboard \<Longrightarrow> k \<noteq> ''tab'' \<Longrightarrow>
   k \<noteq> ''d'' \<Longrightarrow> activePane m = PaneContent \<Longrightarrow>
   UpdateKey L k (m, w) =
     (if k = ''esc'' then ((m\<lparr>activePane := PaneList\<rparr>, w), [])
      else ((m\<lparr>viewport := fst (viewport_Update L (viewport m) (KeyMsg k))\<rparr>, w),
            Batch [map_option LibCmd (snd (viewport_Update L (viewport m) (KeyMsg k)))]))"
  by (simp add: UpdateKey_def split: prod.splits)

subsection \<open>The filter setting\<close>

text \<open>Only the key \<open>d\<close> changes \<open>devMode\<close>.\<close>

lemma devMode_startStreaming: "devMode (fst (startStreaming name (m, w))) = devMode m"
  by (simp add: startStreaming_def Let_def split: option.splits)

lemma devMode_keyPaneList: "devMode (fst (fst (keyPaneList k (m, w)))) = devMode m"
proof (cases "selectedName m")
  case None
  then show ?thesis by (simp add: keyPaneList_def Let_def)
next
  case (Some name)
  then show ?thesis
    using devMode_startStreaming
            [of name "m\<lparr>viewMode := ModeLogs, activePane := PaneContent\<rparr>" w]
    by (simp add: keyPaneList_def Let_def)
qed

lemma devMode_UpdateKey:
  assumes "k \<noteq> ''d''"
  shows "devMode (fst (fst (UpdateKey L k (m, w)))) = devMode m"
proof -
  consider (quit) "k = ''q'' \<or> k = ''ctrl+c''"
    | (dash) "\<not> (k = ''q'' \<or> k = ''ctrl+c'')" "viewMode m = ModeDashboard"
    | (tab) "viewMode m \<noteq> ModeDashboard" "k = ''tab''"
    | (filtering) "\<not> (k = ''q'' \<or> k = ''ctrl+c'')" "viewMode m \<noteq> ModeDashboard" "k \<noteq> ''tab''"
        "k \<noteq> ''d''" "activePane m = PaneList" "settingFilter (list m)"
    | (lst) "\<not> (k = ''q'' \<or> k = ''ctrl+c'')" "viewMode m \<noteq> ModeDashboard" "k \<noteq> ''tab''"
        "k \<noteq> ''d''" "activePane m = PaneList" "\<not> settingFilter (list m)"
    | (content) "\<not> (k = ''q'' \<or> k = ''ctrl+c'')" "viewMode m \<noteq> ModeDashboard" "k \<noteq> ''tab''"
        "k \<noteq> ''d''" "activePane m = PaneContent"
    using assms by (cases "activePane m") auto
  then show ?thesis
  proof cases
    case quit
    then show ?thesis by (simp add: UpdateKey_quit)
  next
    case dash
    then show ?thesis by (simp add: UpdateKey_dashboard)
  next
    case tab
    then show ?thesis by (simp add: UpdateKey_tab)
  next
    case filtering
    then show ?thesis by (simp add: UpdateKey_filtering)
  next
    case lst
    obtain m1 w1 ks where kp: "keyPaneList k (m, w) = ((m1, w1), ks)"
      by (metis prod.exhaust)
    from devMode_keyPaneList [of k m w] kp have "devMode m1 = devMode m" by simp
    with lst kp show ?thesis by (simp add: UpdateKey_list)
  next
    case content
    then show ?thesis by (simp add: UpdateKey_content)
  qed
qed

lemma devMode_Update:
  assumes "e \<noteq> KeyMsg ''d''"
  shows "devMode (fst (fst (Update L e (m, w)))) = devMode m"
proof (cases e)
  case (KeyMsg k)
  with assms have "k \<noteq> ''d''" by simp
  with KeyMsg show ?thesis by (simp add: devMode_UpdateKey)
next
  case (LogLineMsg line)
  then show ?thesis by (simp add: appendLogLine_def Let_def)
next
  case (ActionResultMsg a b)
  then show ?thesis by (cases a) simp_all
next
  case SpinnerTickMsg
  then show ?thesis by (simp split: prod.splits)
qed (simp_all add: Let_def updateListItems_frame)

lemma devMode_UpdateAll:
  "KeyMsg ''d'' \<notin> set es \<Longrightarrow> devMode (fst (UpdateAll L es s)) = devMode (fst s)"
proof (induction es arbitrary: s)
  case Nil
  then show ?case by simp
next
  case (Cons e es)
  obtain m w where s: "s = (m, w)" by (cases s)
  from Cons.prems have e: "e \<noteq> KeyMsg ''d''" and es: "KeyMsg ''d'' \<notin> set es" by auto
  from devMode_Update [OF e, of L m w] Cons.IH [OF es, of "fst (Update L e (m, w))"] s
  show ?case by simp
qed

subsection \<open>The log buffer\<close>

lemma logLines_appendLogLine:
  "logLines (appendLogLine L line m) =
     (if line = [] then logLines m
      else drop (Suc (length (logLines m)) - 1000) (logLines m @ [line]))"
  by (simp add: appendLogLine_def Let_def)

lemma length_logLines_appendLogLine:
  assumes "length (logLines m) \<le> 1000"
  shows "length (logLines (appendLogLine L line m)) \<le> 1000"
proof (cases "line = []")
  case True
  with assms show ?thesis by (simp add: logLines_appendLogLine)
next
  case False
  from assms have "Suc (length (logLines m)) - (Suc (length (logLines m)) - 1000) \<le> 1000"
    by arith
  with False show ?thesis by (simp add: logLines_appendLogLine)
qed

lemma logLines_startStreaming:
  "logLines (fst (startStreaming name (m, w))) = logLines m \<or>
   logLines (fst (startStreaming name (m, w))) = []"
  by (simp add: startStreaming_def Let_def)

lemma logLines_keyPaneList:
  "logLines (fst (fst (keyPaneList k (m, w)))) = logLines m \<or>
   logLines (fst (fst (keyPaneList k (m, w)))) = []"
proof (cases "selectedName m")
  case None
  then show ?thesis by (simp add: keyPaneList_def Let_def)
next
  case (Some name)
  then show ?thesis
    using logLines_startStreaming
            [of name "m\<lparr>viewMode := ModeLogs, activePane := PaneContent\<rparr>" w]
    by (simp add: keyPaneList_def Let_def)
qed

lemma logLines_UpdateKey:
  "logLines (fst (fst (UpdateKey L k (m, w)))) = logLines m \<or>
   logLines (fst (fst (UpdateKey L k (m, w)))) = []"
proof -
  obtain m1 w1 cs where kp: "keyPaneList k (m, w) = ((m1, w1), cs)"
    by (metis prod.exhaust)
  have m1: "logLines m1 = logLines m \<or> logLines m1 = []"
    using logLines_keyPaneList [of k m w] kp by simp
  obtain l c where lu: "list_Update L (list m1) (KeyMsg k) = (l, c)"
    by (metis prod.exhaust)
  obtain l2 c2 where lu2: "list_Update L (list m) (KeyMsg k) = (l2, c2)"
    by (metis prod.exhaust)
  obtain v c3 where vu: "viewport_Update L (viewport m) (KeyMsg k) = (v, c3)"
    by (metis prod.exhaust)
  show ?thesis
    unfolding UpdateKey_def
    using m1 by (cases "activePane m") (simp_all add: kp lu lu2 vu updateListItems_frame Let_def)
qed

lemma logLines_Update_other:
  "\<not> isLogLine e \<Longrightarrow>
   logLines (fst (fst (Update L e (m, w)))) = logLines m \<or>
   logLines (fst (fst (Update L e (m, w)))) = []"
proof (cases e)
  case (KeyMsg k)
  then show ?thesis using logLines_UpdateKey [of L k m w] by simp
next
  case (ActionResultMsg a b)
  then show ?thesis by (cases a) simp_all
next
  case SpinnerTickMsg
  then show ?thesis by (simp split: prod.splits)
qed (simp_all add: Let_def updateListItems_frame)

lemma length_logLines_Update:
  assumes "length (logLines m) \<le> 1000"
  shows "length (logLines (fst (fst (Update L e (m, w))))) \<le> 1000"
proof (cases "isLogLine e")
  case True
  then obtain line where "e = LogLineMsg line" by (cases e) simp_all
  with assms show ?thesis by (simp add: length_logLines_appendLogLine Let_def)
next
  case False
  from logLines_Update_other [OF False, of L m w] assms show ?thesis by auto
qed

lemma length_logLines_UpdateAll:
  "length (logLines (fst s)) \<le> 1000 \<Longrightarrow> length (logLines (fst (UpdateAll L es s))) \<le> 1000"
proof (induction es arbitrary: s)
  case Nil
  then show ?case by simp
next
  case (Cons e es)
  obtain m w where s: "s = (m, w)" by (cases s)
  obtain m' w' cs where u: "Update L e (m, w) = ((m', w'), cs)"
    by (metis prod.exhaust)
  from Cons.prems s have "length (logLines m) \<le> 1000" by simp
  then have "length (logLines m') \<le> 1000"
    using length_logLines_Update [of m L e w] u by simp
  then show ?case using Cons.IH [of "(m', w')"] s u by simp
qed

text \<open>Appending to a full buffer and then cutting is cutting the whole stream once.\<close>

lemma drop_window:
  assumes "length b \<le> 1000"
  shows "drop (length (drop (Suc (length b) - 1000) (b @ [l]) @ r) - 1000)
           (drop (Suc (length b) - 1000) (b @ [l]) @ r)
         = drop (length (b @ l # r) - 1000) (b @ l # r)"
proof (cases "length b = 1000")
  case True
  then have "b \<noteq> []" by auto
  then obtain x b' where b: "b = x # b'" by (cases b) auto
  with True show ?thesis by simp
next
  case False
  with assms have "Suc (length b) - 1000 = 0" by simp
  then show ?thesis by simp
qed

lemma logLines_feed:
  "length (logLines m) \<le> 1000 \<Longrightarrow>
   logLines (fst (UpdateAll L (map LogLineMsg ls) (m, w))) =
     drop (length (logLines m @ filter (\<lambda>l. l \<noteq> []) ls) - 1000)
       (logLines m @ filter (\<lambda>l. l \<noteq> []) ls)"
proof (induction ls arbitrary: m)
  case Nil
  then show ?case by simp
next
  case (Cons l ls)
  let ?m' = "appendLogLine L l m"
  have len: "length (logLines ?m') \<le> 1000"
    using Cons.prems by (rule length_logLines_appendLogLine)
  have "logLines (fst (UpdateAll L (map LogLineMsg (l # ls)) (m, w))) =
        logLines (fst (UpdateAll L (map LogLineMsg ls) (?m', w)))"
    by (simp add: Let_def)
  also have "\<dots> = drop (length (logLines ?m' @ filter (\<lambda>l. l \<noteq> []) ls) - 1000)
       (logLines ?m' @ filter (\<lambda>l. l \<noteq> []) ls)"
    using Cons.IH [OF len] .
  also have "\<dots> = drop (length (logLines m @ filter (\<lambda>l. l \<noteq> []) (l # ls)) - 1000)
       (logLines m @ filter (\<lambda>l. l \<noteq> []) (l # ls))"
  proof (cases "l = []")
    case True
    then show ?thesis by (simp add: logLines_appendLogLine)
  next
    case False
    then show ?thesis
      using drop_window [OF Cons.prems, of l "filter (\<lambda>l. l \<noteq> []) ls"]
      by (simp add: logLines_appendLogLine)
  qed
  finally show ?case .
qed

lemma hd_notin_drop:
  assumes "distinct ls" "0 < k" "ls \<noteq> []"
  shows "hd ls \<notin> set (drop k ls)"
proof -
  from assms obtain x xs where ls: "ls = x # xs" by (cases ls) auto
  from assms obtain j where k: "k = Suc j" by (cases k) auto
  have "set (drop j xs) \<subseteq> set xs" by (rule set_drop_subset)
  with assms(1) ls k show ?thesis by auto
qed

lemma numbered_facts:
  "length (numbered n) = n" "[] \<notin> set (numbered n)" "distinct (numbered n)"
  "hd (numbered (Suc n)) = ''x''"
proof -
  show "length (numbered n) = n" by (simp add: numbered_def)
  show "[] \<notin> set (numbered n)" by (auto simp: numbered_def)
  have "inj (\<lambda>k. replicate (Suc k) (CHR ''x''))"
    by (rule injI) (metis length_replicate nat.inject)
  then show "distinct (numbered n)"
    unfolding numbered_def by (simp add: distinct_map inj_on_def)
  show "hd (numbered (Suc n)) = ''x''"
    by (simp add: numbered_def upt_conv_Cons del: upt_Suc)
qed

text \<open>
  Claim C2. Whatever messages arrive, in whatever order, \<open>logLines\<close> never holds more than
  1000 entries. After a sequence of log-line messages it holds the last 1000 of the
  non-empty lines appended so far, in order, so the oldest line goes first; in
  particular, once more than 1000 distinct lines of a stream have been appended to an
  empty buffer, the first line of the stream is no longer in it.
\<close>

theorem LogBuffer_capped_FIFO:
  assumes "length (logLines m) \<le> 1000"
  shows "length (logLines (fst (UpdateAll L es (m, w)))) \<le> 1000 \<and>
         logLines (fst (UpdateAll L (map LogLineMsg ls) (m, w))) =
           drop (length (logLines m @ filter (\<lambda>l. l \<noteq> []) ls) - 1000)
             (logLines m @ filter (\<lambda>l. l \<noteq> []) ls) \<and>
         (logLines m = [] \<and> [] \<notin> set ls \<and> distinct ls \<and> 1000 < length ls \<longrightarrow>
            hd ls \<notin> set (logLines (fst (UpdateAll L (map LogLineMsg ls) (m, w)))))"
proof (intro conjI impI)
  show "length (logLines (fst (UpdateAll L es (m, w)))) \<le> 1000"
    using length_logLines_UpdateAll [of "(m, w)" L es] assms by simp
  show feed: "logLines (fst (UpdateAll L (map LogLineMsg ls) (m, w))) =
           drop (length (logLines m @ filter (\<lambda>l. l \<noteq> []) ls) - 1000)
             (logLines m @ filter (\<lambda>l. l \<noteq> []) ls)"
    using assms by (rule logLines_feed)
  assume h: "logLines m = [] \<and> [] \<notin> set ls \<and> distinct ls \<and> 1000 < length ls"
  then have f: "filter (\<lambda>l. l \<noteq> []) ls = ls"
    by (auto intro: filter_True)
  from h have "ls \<noteq> []" by auto
  with h have "hd ls \<notin> set (drop (length ls - 1000) ls)"
    by (intro hd_notin_drop) auto
  with feed f h show "hd ls \<notin> set (logLines (fst (UpdateAll L (map LogLineMsg ls) (m, w))))"
    by simp
qed

text \<open>The scripted stream of 1500 lines, from the initial model: 1000 lines stay, the
  first line is gone.\<close>

theorem LogBuffer_capped_FIFO_witness:
  "length (logLines (fst (UpdateAll refLib (map LogLineMsg (numbered 1500))
      (NewModel, world0)))) \<le> 1000 \<and>
   logLines (fst (UpdateAll refLib (map LogLineMsg (numbered 1500)) (NewModel, world0))) =
      drop 500 (numbered 1500) \<and>
   ''x'' \<notin> set (logLines (fst (UpdateAll refLib (map LogLineMsg (numbered 1500))
      (NewModel, world0))))"
proof -
  have a: "length (logLines NewModel) \<le> 1000" by (simp add: NewModel_def)
  have e: "logLines NewModel = []" by (simp add: NewModel_def)
  have f: "filter (\<lambda>l. l \<noteq> []) (numbered 1500) = numbered 1500"
    using numbered_facts(2) [of 1500] by (auto intro: filter_True)
  have h: "hd (numbered 1500) = ''x''"
    using numbered_facts(4) [of 1499] by simp
  have p: "logLines NewModel = [] \<and> [] \<notin> set (numbered 1500) \<and> distinct (numbered 1500) \<and>
           1000 < length (numbered 1500)"
    using numbered_facts [of 1500] by (simp add: e)
  note t = LogBuffer_capped_FIFO
             [OF a, of refLib "map LogLineMsg (numbered 1500)" world0 "numbered 1500"]
  from t have t1: "length (logLines (fst (UpdateAll refLib (map LogLineMsg (numbered 1500))
                     (NewModel, world0)))) \<le> 1000"
    by (rule conjunct1)
  from t have t2: "logLines (fst (UpdateAll refLib (map LogLineMsg (numbered 1500))
                     (NewModel, world0))) = drop 500 (numbered 1500)"
    by (simp add: e f numbered_facts(1))
  from t p have t3: "hd (numbered 1500) \<notin> set (logLines (fst (UpdateAll refLib
                     (map LogLineMsg (numbered 1500)) (NewModel, world0))))"
    by blast
  from t1 t2 t3 show ?thesis unfolding h by blast
qed

text \<open>
  Claim C4. A control-action result with \<open>err = nil\<close> sets the status message to the
  action name followed by \<open>unit.\<close> and the commands returned are exactly one service-list
  fetch; with \<open>err != nil\<close> the status message is \<open>Error:\<close> followed by the error text
  and no command is returned, so no service-list fetch is issued.
\<close>

theorem actionResult_refetch_only_on_success:
  "Update L (ActionResultMsg None act) (m, w) =
     ((m\<lparr>statusMessage := act @ '' unit.''\<rparr>, w), [FetchUnits]) \<and>
   FetchUnits \<in> set (snd (Update L (ActionResultMsg None act) (m, w))) \<and>
   Update L (ActionResultMsg (Some e) act) (m, w) =
     ((m\<lparr>statusMessage := ''Error: '' @ e\<rparr>, w), []) \<and>
   FetchUnits \<notin> set (snd (Update L (ActionResultMsg (Some e) act) (m, w)))"
  by simp

theorem actionResult_refetch_only_on_success_witness:
  "statusMessage (fst (fst (Update refLib (performAction None ''Started'')
      (NewModel, world0)))) = ''Started unit.'' \<and>
   snd (Update refLib (performAction None ''Started'') (NewModel, world0)) = [FetchUnits] \<and>
   statusMessage (fst (fst (Update refLib (performAction (Some ''exit status 5'') ''Started'')
      (NewModel, world0)))) = ''Error: exit status 5'' \<and>
   snd (Update refLib (performAction (Some ''exit status 5'') ''Started'')
      (NewModel, world0)) = []"
  using actionResult_refetch_only_on_success
          [of refLib "''Started''" NewModel world0 "''exit status 5''"]
  by (simp add: performAction_def)

text \<open>
  Claim C9. A log-line message with the empty string leaves the whole model, and with it
  the log buffer and the viewport, as they were, and the command returned is one
  wait for the next line on the current channel. The wait on a \<open>nil\<close> channel and the
  wait on a closed channel both yield the \<open>nil\<close> message, on which \<open>Update\<close> changes
  nothing and returns no command: the stream goes quiet, no error is reported.
\<close>

theorem empty_line_dropped_wait_reissued:
  "Update L (LogLineMsg []) (m, w) = ((m, w), [WaitForLogLine (logChan m)]) \<and>
   waitForLogLine None r = NilMsg \<and>
   waitForLogLine (Some ch) ChanClosed = NilMsg \<and>
   Update L NilMsg (m, w) = ((m, w), [])"
  by (simp add: appendLogLine_def waitForLogLine_def)

theorem empty_line_dropped_wait_reissued_witness:
  "Update refLib (waitForLogLine (Some 0) (Received [])) (NewModel, world0) =
     ((NewModel, world0), [WaitForLogLine None]) \<and>
   Update refLib (waitForLogLine None ChanClosed) (NewModel, world0) = ((NewModel, world0), []) \<and>
   Update refLib (waitForLogLine (Some 0) ChanClosed) (NewModel, world0) =
     ((NewModel, world0), [])"
proof -
  have c: "logChan NewModel = None" by (simp add: NewModel_def)
  have r: "waitForLogLine (Some 0) (Received []) = LogLineMsg []"
    by (simp add: waitForLogLine_def)
  show ?thesis
    using empty_line_dropped_wait_reissued [of refLib NewModel world0 ChanClosed 0]
    by (simp add: c r)
qed

text \<open>
  Claim C10. The initial model has the dev filter on, shows the dashboard, focuses the
  list pane and says \<open>Ready\<close>. Whatever messages are folded after startup (window
  sizes, spinner ticks, host statistics, keys, results of commands), as long as the
  filter key \<open>d\<close> is not among them the filter stays on, and a service list that
  arrives then is shown filtered: the list holds exactly the units whose lower-cased
  name contains one of the hardcoded keywords. It still does after the enter key has
  left the dashboard.
\<close>

theorem NewModel_dev_filter_on:
  assumes "KeyMsg ''d'' \<notin> set es"
  shows "devMode NewModel \<and> viewMode NewModel = ModeDashboard \<and>
   activePane NewModel = PaneList \<and> statusMessage NewModel = ''Ready'' \<and>
   devMode (fst (UpdateAll L es (NewModel, w))) \<and>
   items (list (fst (fst (Update L (UnitsMsg us) (UpdateAll L es (NewModel, w)))))) =
     map Item (filter (\<lambda>u. \<exists>kw \<in> set devKeywords. Contains (ToLower L (Name u)) kw) us) \<and>
   devMode (fst (fst (Update L (UnitsMsg us) (UpdateAll L es (NewModel, w))))) \<and>
   (viewMode (fst (UpdateAll L es (NewModel, w))) = ModeDashboard \<longrightarrow>
      viewMode (fst (fst (Update L (KeyMsg ''enter'')
        (fst (Update L (UnitsMsg us) (UpdateAll L es (NewModel, w))))))) = ModeList \<and>
      items (list (fst (fst (Update L (KeyMsg ''enter'')
        (fst (Update L (UnitsMsg us) (UpdateAll L es (NewModel, w)))))))) =
        map Item
          (filter (\<lambda>u. \<exists>kw \<in> set devKeywords. Contains (ToLower L (Name u)) kw) us))"
proof -
  obtain m1 w1 where s: "UpdateAll L es (NewModel, w) = (m1, w1)" by (metis prod.exhaust)
  from devMode_UpdateAll [OF assms, of L "(NewModel, w)"] s have d: "devMode m1"
    by (simp add: NewModel_def)
  have n: "devMode NewModel \<and> viewMode NewModel = ModeDashboard \<and>
           activePane NewModel = PaneList \<and> statusMessage NewModel = ''Ready''"
    by (simp add: NewModel_def)
  show ?thesis
    unfolding s using d n
    by (simp add: items_updateListItems updateListItems_frame FilteredView_def isDev_iff
          UpdateKey_dashboard)
qed

text \<open>A start as the runtime drives it: the window size, the failed host statistics
  and a spinner tick arrive before the service list.\<close>

theorem NewModel_dev_filter_on_witness:
  "map (\<lambda>i. Name (unit i)) (items (list (fst (fst
      (Update refLib (UnitsMsg [docker, cron, nginx]) (UpdateAll refLib startup
         (NewModel, world0))))))) = [''docker.service'', ''nginx.service''] \<and>
   devMode (fst (UpdateAll refLib startup (NewModel, world0)))"
proof -
  have h: "KeyMsg ''d'' \<notin> set startup" by (simp add: startup_def fetchStats_def)
  have f: "map (\<lambda>i. Name (unit i)) (map Item
             (filter (\<lambda>u. \<exists>kw \<in> set devKeywords. Contains (ToLower refLib (Name u)) kw)
                [docker, cron, nginx])) = [''docker.service'', ''nginx.service'']"
    by code_simp
  note t = NewModel_dev_filter_on [OF h, of refLib world0 "[docker, cron, nginx]"]
  from t have a: "items (list (fst (fst
      (Update refLib (UnitsMsg [docker, cron, nginx]) (UpdateAll refLib startup
         (NewModel, world0)))))) =
      map Item (filter (\<lambda>u. \<exists>kw \<in> set devKeywords. Contains (ToLower refLib (Name u)) kw)
        [docker, cron, nginx])"
    by blast
  from t have b: "devMode (fst (UpdateAll refLib startup (NewModel, world0)))"
    by blast
  from b show ?thesis by (simp only: a f simp_thms)
qed

text \<open>
  Claim C3, as amended. No failure of a background command is fatal: on the message of
  a failed service-list, configuration or host-statistics fetch, of a failed control
  action and of a closed log stream, \<open>Update\<close> returns a next state and no quit
  command. A failed control action sets the status message to \<open>Error:\<close> followed by
  the error text. A failed configuration fetch arrives as the configuration text
  \<open>Error reading config:\<close> followed by the error text (put into the viewer when the
  configuration is being shown), and a failed host-statistics fetch as statistics whose
  host name and platform are \<open>Unknown\<close>; neither changes the status message.
\<close>

theorem fetch_failures_in_band:
  "Update L (fetchConfig name (Inl e)) (m, w) =
     ((if viewMode m = ModeConfig
       then m\<lparr>configContent := ''Error reading config: '' @ e,
              viewport := viewport_GotoTop L
                (viewport_SetContent L (viewport m) (''Error reading config: '' @ e))\<rparr>
       else m\<lparr>configContent := ''Error reading config: '' @ e\<rparr>, w), []) \<and>
   statusMessage (fst (fst (Update L (fetchConfig name (Inl e)) (m, w)))) = statusMessage m \<and>
   Update L (fetchStats (Inl e)) (m, w) =
     ((m\<lparr>stats := \<lparr>hostname = ''Unknown'', os = ''Unknown'', uptime = 0, kernel = []\<rparr>\<rparr>, w),
      []) \<and>
   Update L (performAction (Some e) act) (m, w) =
     ((m\<lparr>statusMessage := ''Error: '' @ e\<rparr>, w), []) \<and>
   Quit \<notin> set (snd (Update L (fetchUnits (Inl e)) (m, w))) \<and>
   Quit \<notin> set (snd (Update L (fetchConfig name (Inl e)) (m, w))) \<and>
   Quit \<notin> set (snd (Update L (fetchStats (Inl e)) (m, w))) \<and>
   Quit \<notin> set (snd (Update L (performAction (Some e) act) (m, w))) \<and>
   Quit \<notin> set (snd (Update L (waitForLogLine sub ChanClosed) (m, w)))"
  by (simp add: fetchConfig_def fetchStats_def performAction_def fetchUnits_def
        waitForLogLine_def Let_def split: option.splits)

theorem fetch_failures_in_band_witness:
  "statusMessage (fst (fst (Update refLib
      (fetchConfig ''docker.service'' (Inl ''exit status 1'')) configuring))) = ''Ready'' \<and>
   Update refLib (performAction (Some ''exit status 1'') ''Stopped'') configuring =
     (((fst configuring)\<lparr>statusMessage := ''Error: exit status 1''\<rparr>, snd configuring), []) \<and>
   Quit \<notin> set (snd (Update refLib (fetchUnits (Inl ''exit status 1'')) configuring))"
proof -
  have r: "statusMessage (fst configuring) = ''Ready''" by code_simp
  have c: "''Error: '' @ ''exit status 1'' = ''Error: exit status 1''" by simp
  note t = fetch_failures_in_band [of refLib "''docker.service''" "''exit status 1''"
             "fst configuring" "snd configuring" "''Stopped''"]
  from t have "statusMessage (fst (fst (Update refLib
      (fetchConfig ''docker.service'' (Inl ''exit status 1''))
      (fst configuring, snd configuring)))) = statusMessage (fst configuring)"
    by blast
  then have a: "statusMessage (fst (fst (Update refLib
      (fetchConfig ''docker.service'' (Inl ''exit status 1'')) configuring))) = ''Ready''"
    by (simp only: r prod.collapse)
  from t have "Update refLib (performAction (Some ''exit status 1'') ''Stopped'')
      (fst configuring, snd configuring) =
     (((fst configuring)\<lparr>statusMessage := ''Error: '' @ ''exit status 1''\<rparr>, snd configuring), [])"
    by blast
  then have b: "Update refLib (performAction (Some ''exit status 1'') ''Stopped'') configuring =
     (((fst configuring)\<lparr>statusMessage := ''Error: exit status 1''\<rparr>, snd configuring), [])"
    by (simp only: c prod.collapse)
  from t have "Quit \<notin> set (snd (Update refLib (fetchUnits (Inl ''exit status 1''))
      (fst configuring, snd configuring)))"
    by blast
  then have q: "Quit \<notin> set (snd (Update refLib (fetchUnits (Inl ''exit status 1''))
      configuring))"
    by (simp only: prod.collapse simp_thms)
  from a b q show ?thesis by blast
qed

text \<open>
  Claim C3 as the specification states it fails. The configuration of the selected
  unit is asked for; the fetch fails; the status message of the next state is still
  \<open>Ready\<close> and says nothing of the failure. The same holds for a failed
  host-statistics fetch at startup.
\<close>

theorem fetch_failure_status_counterexample:
  "snd (Update refLib (KeyMsg ''c'') listed) = [FetchConfig ''docker.service''] \<and>
   statusMessage (fst (fst (Update refLib
      (fetchConfig ''docker.service'' (Inl ''exit status 1'')) configuring))) = ''Ready'' \<and>
   statusMessage (fst (fst (Update refLib (fetchStats (Inl ''not implemented yet''))
      (NewModel, world0)))) = ''Ready''"
  by code_simp

text \<open>
  Claim C5, as amended. When a service list arrives the controller replaces the whole
  collection and hands the recomputed FilteredView to the list. It keeps no record of
  the selected name: when the old index still points into the new view it is kept, so
  the selection is whatever unit now stands at that index.
\<close>

theorem service_list_replaced_index_kept:
  "allUnits (fst (fst (Update L (UnitsMsg us) (m, w)))) = us \<and>
   items (list (fst (fst (Update L (UnitsMsg us) (m, w))))) = FilteredView L (devMode m) us \<and>
   (0 \<le> index (list m) \<and> index (list m) < int (length (FilteredView L (devMode m) us)) \<longrightarrow>
      index (list (fst (fst (Update L (UnitsMsg us) (m, w))))) = index (list m) \<and>
      SelectedItem (list (fst (fst (Update L (UnitsMsg us) (m, w))))) =
        Some (FilteredView L (devMode m) us ! nat (index (list m))))"
  by (auto simp add: items_updateListItems index_updateListItems updateListItems_frame
        SelectedItem_def)

theorem service_list_replaced_index_kept_witness:
  "SelectedItem (list (fst (fst (Update refLib (UnitsMsg [nginx, docker, cron]) onSecond)))) =
     Some (Item docker)"
proof -
  have r: "0 \<le> index (list (fst onSecond)) \<and>
           index (list (fst onSecond)) <
             int (length (FilteredView refLib (devMode (fst onSecond)) [nginx, docker, cron]))"
    by code_simp
  have e: "FilteredView refLib (devMode (fst onSecond)) [nginx, docker, cron] !
             nat (index (list (fst onSecond))) = Item docker"
    by code_simp
  from service_list_replaced_index_kept
         [of refLib "[nginx, docker, cron]" "fst onSecond" "snd onSecond"] r
  have "SelectedItem (list (fst (fst (Update refLib (UnitsMsg [nginx, docker, cron])
          (fst onSecond, snd onSecond))))) =
        Some (FilteredView refLib (devMode (fst onSecond)) [nginx, docker, cron] !
                nat (index (list (fst onSecond))))"
    by blast
  then show ?thesis by (simp only: e prod.collapse)
qed

text \<open>
  Claim C5 as the specification states it fails. The second unit shown,
  \<open>nginx.service\<close>, is selected. A service list arrives that still holds
  \<open>nginx.service\<close>, now in first place. The selection is then \<open>docker.service\<close>, the unit
  at the old index, not \<open>nginx.service\<close>.
\<close>

theorem selection_by_name_counterexample:
  "selectedName (fst onSecond) = Some ''nginx.service'' \<and>
   ''nginx.service'' \<in> set (map Name [nginx, docker, cron]) \<and>
   selectedName (fst (fst (Update refLib (fetchUnits (Inr [nginx, docker, cron])) onSecond))) =
     Some ''docker.service''"
  by code_simp

text \<open>
  Claim C6. After a service list has been folded in, the list shows the FilteredView of
  the new collection under the current filter setting, which is a subsequence of the
  collection in its order. After the filter key \<open>d\<close> (outside the dashboard) the filter
  setting is flipped and the list shows the FilteredView of the same collection under
  the flipped setting, again a subsequence of it; a second press shows the view of the
  original setting again.
\<close>

theorem FilteredView_subsequence_never_stale:
  "allUnits (fst (fst (Update L (UnitsMsg us) (m, w)))) = us \<and>
   devMode (fst (fst (Update L (UnitsMsg us) (m, w)))) = devMode m \<and>
   items (list (fst (fst (Update L (UnitsMsg us) (m, w))))) = FilteredView L (devMode m) us \<and>
   subseq (map unit (items (list (fst (fst (Update L (UnitsMsg us) (m, w))))))) us \<and>
   (viewMode m \<noteq> ModeDashboard \<longrightarrow>
      allUnits (fst (fst (Update L (KeyMsg ''d'') (m, w)))) = allUnits m \<and>
      devMode (fst (fst (Update L (KeyMsg ''d'') (m, w)))) = (\<not> devMode m) \<and>
      items (list (fst (fst (Update L (KeyMsg ''d'') (m, w))))) =
        FilteredView L (\<not> devMode m) (allUnits m) \<and>
      subseq (map unit (items (list (fst (fst (Update L (KeyMsg ''d'') (m, w)))))))
        (allUnits m) \<and>
      items (list (fst (fst
          (Update L (KeyMsg ''d'') (fst (Update L (KeyMsg ''d'') (m, w))))))) =
        FilteredView L (devMode m) (allUnits m))"
  by (simp add: items_updateListItems updateListItems_frame subseq_FilteredView UpdateKey_def
        Let_def)

theorem FilteredView_subsequence_never_stale_witness:
  "map (\<lambda>i. Name (unit i)) (items (list (fst (fst (Update refLib (KeyMsg ''d'') listed))))) =
     [''docker.service'', ''cron.timer'', ''nginx.service''] \<and>
   map (\<lambda>i. Name (unit i)) (items (list (fst (fst (Update refLib (KeyMsg ''d'')
     (fst (Update refLib (KeyMsg ''d'') listed))))))) = [''docker.service'', ''nginx.service'']"
proof -
  have v: "viewMode (fst listed) \<noteq> ModeDashboard" by code_simp
  have f: "map (\<lambda>i. Name (unit i))
             (FilteredView refLib (devMode (fst listed)) (allUnits (fst listed))) =
           [''docker.service'', ''nginx.service'']"
    by code_simp
  have g: "map (\<lambda>i. Name (unit i))
             (FilteredView refLib (\<not> devMode (fst listed)) (allUnits (fst listed))) =
           [''docker.service'', ''cron.timer'', ''nginx.service'']"
    by code_simp
  from FilteredView_subsequence_never_stale [of refLib "[]" "fst listed" "snd listed"] v
  have "items (list (fst (fst (Update refLib (KeyMsg ''d'') (fst listed, snd listed))))) =
          FilteredView refLib (\<not> devMode (fst listed)) (allUnits (fst listed)) \<and>
        items (list (fst (fst (Update refLib (KeyMsg ''d'')
          (fst (Update refLib (KeyMsg ''d'') (fst listed, snd listed))))))) =
          FilteredView refLib (devMode (fst listed)) (allUnits (fst listed))"
    by blast
  then show ?thesis by (simp only: f g prod.collapse)
qed

text \<open>
  Claim C7. \<open>startStreaming\<close> for the name that is already the streaming target changes
  neither the model nor the world. Hence the enter key on the list pane, with the
  streaming target selected, leaves the log buffer, the context, the cancel function,
  the channel and the target as they were, cancels nothing and starts no goroutine.
\<close>

theorem same_target_no_restart:
  "startStreaming (streamingUnit m) (m, w) = (m, w) \<and>
   (viewMode m \<noteq> ModeDashboard \<and> activePane m = PaneList \<and> \<not> settingFilter (list m) \<and>
    selectedName m = Some (streamingUnit m) \<longrightarrow>
      logLines (fst (fst (Update L (KeyMsg ''enter'') (m, w)))) = logLines m \<and>
      logCtx (fst (fst (Update L (KeyMsg ''enter'') (m, w)))) = logCtx m \<and>
      logCancel (fst (fst (Update L (KeyMsg ''enter'') (m, w)))) = logCancel m \<and>
      logChan (fst (fst (Update L (KeyMsg ''enter'') (m, w)))) = logChan m \<and>
      streamingUnit (fst (fst (Update L (KeyMsg ''enter'') (m, w)))) = streamingUnit m \<and>
      snd (fst (Update L (KeyMsg ''enter'') (m, w))) = w)"
  by (simp add: startStreaming_def UpdateKey_def keyPaneList_def Let_def split: prod.splits)

theorem same_target_no_restart_witness:
  "logLines (fst (fst (Update refLib (KeyMsg ''enter'') streaming))) = [''Started.''] \<and>
   logCancel (fst (fst (Update refLib (KeyMsg ''enter'') streaming))) = Some 0 \<and>
   logChan (fst (fst (Update refLib (KeyMsg ''enter'') streaming))) = Some 0 \<and>
   snd (fst (Update refLib (KeyMsg ''enter'') streaming)) = snd streaming"
proof -
  have h: "viewMode (fst streaming) \<noteq> ModeDashboard \<and> activePane (fst streaming) = PaneList \<and>
     \<not> settingFilter (list (fst streaming)) \<and>
     selectedName (fst streaming) = Some (streamingUnit (fst streaming))"
    by code_simp
  have v: "logLines (fst streaming) = [''Started.'']"
    "logCancel (fst streaming) = Some 0" "logChan (fst streaming) = Some 0"
    by code_simp+
  from same_target_no_restart [of "fst streaming" "snd streaming" refLib] h
  have "logLines (fst (fst (Update refLib (KeyMsg ''enter'') (fst streaming, snd streaming)))) =
          logLines (fst streaming) \<and>
        logCancel (fst (fst (Update refLib (KeyMsg ''enter'') (fst streaming, snd streaming)))) =
          logCancel (fst streaming) \<and>
        logChan (fst (fst (Update refLib (KeyMsg ''enter'') (fst streaming, snd streaming)))) =
          logChan (fst streaming) \<and>
        snd (fst (Update refLib (KeyMsg ''enter'') (fst streaming, snd streaming))) =
          snd streaming"
    by blast
  then show ?thesis by (simp only: v prod.collapse)
qed

subsection \<open>The row renderer\<close>

lemma truncateTo_Inr:
  assumes "gWidth G s \<le> int (length s)"
  shows "truncateTo G s avail =
           Inr (if gWidth G s > avail
                then (if avail > 3 then take (nat (avail - 3)) s @ ''...'' else [])
                else s)"
  using assms by (auto simp: truncateTo_def sliceTo_def)

lemma innerWidthOf_nonneg: "0 \<le> innerWidthOf m sel"
  by (simp add: innerWidthOf_def Let_def)

lemma Render_Inr:
  assumes "\<forall>s. gWidth G s \<le> int (length s)"
  shows "\<exists>out. Render L G m idx i = Inr out"
proof -
  from assms have t: "\<And>s avail. \<exists>t. truncateTo G s avail = Inr t"
    using truncateTo_Inr by blast
  have r: "\<And>n. \<exists>g. Repeat '' '' (if n < 0 then 0 else n) = Inr g"
    by (simp add: Repeat_def)
  show ?thesis
    unfolding Render_def Let_def
    by (metis (no_types, lifting) t r sum.case(2))
qed

lemma innerWidthOf_eq:
  "innerWidthOf m sel = (if listWidth m \<le> 0 then 38 else max 0 (listWidth m - 2))"
  by (simp add: innerWidthOf_def GetHorizontalFrameSize_def Let_def)




subsection \<open>Waits on a superseded channel\<close>

lemma wait_not_LibCmd [simp]:
  "Some (WaitForLogLine x) \<noteq> map_option LibCmd c"
  "map_option LibCmd c \<noteq> Some (WaitForLogLine x)"
  by (cases c; simp)+

lemma Batch_set: "set (Batch cs) = {c. Some c \<in> set cs}"
  by (induction cs rule: Batch.induct) auto

lemma startStreaming_chan:
  "startStreaming name (m, w) = (m', w') \<Longrightarrow>
   nextId w \<le> nextId w' \<and>
   (logChan m' = logChan m \<and> nextId w' = nextId w \<or>
    logChan m' = Some (nextId w) \<and> nextId w' = Suc (nextId w))"
  by (auto simp: startStreaming_def Let_def split: if_splits option.splits)

lemma keyPaneList_chan:
  assumes "keyPaneList k (m, w) = ((m', w'), cs)"
  shows "nextId w \<le> nextId w' \<and>
         (logChan m' = logChan m \<and> nextId w' = nextId w \<or>
          logChan m' = Some (nextId w) \<and> nextId w' = Suc (nextId w)) \<and>
         (\<forall>x. Some (WaitForLogLine x) \<in> set cs \<longrightarrow> x = logChan m')"
proof (cases "selectedName m")
  case None
  with assms show ?thesis by (auto simp: keyPaneList_def Let_def split: if_splits)
next
  case (Some name)
  let ?m1 = "m\<lparr>viewMode := ModeLogs, activePane := PaneContent\<rparr>"
  obtain m2 w2 where ss: "startStreaming name (?m1, w) = (m2, w2)" by (metis prod.exhaust)
  from startStreaming_chan [OF ss] have
    c: "nextId w \<le> nextId w2 \<and>
        (logChan m2 = logChan m \<and> nextId w2 = nextId w \<or>
         logChan m2 = Some (nextId w) \<and> nextId w2 = Suc (nextId w))"
    by simp
  from assms Some ss c show ?thesis
    by (auto simp: keyPaneList_def Let_def split: if_splits)
qed

lemma UpdateKey_chan:
  assumes "UpdateKey L k (m, w) = ((m', w'), cs)"
  shows "nextId w \<le> nextId w' \<and>
         (logChan m' = logChan m \<and> nextId w' = nextId w \<or>
          logChan m' = Some (nextId w) \<and> nextId w' = Suc (nextId w)) \<and>
         (\<forall>x. WaitForLogLine x \<in> set cs \<longrightarrow> x = logChan m')"
proof -
  consider (quit) "k = ''q'' \<or> k = ''ctrl+c''"
    | (dash) "\<not> (k = ''q'' \<or> k = ''ctrl+c'')" "viewMode m = ModeDashboard"
    | (tab) "viewMode m \<noteq> ModeDashboard" "k = ''tab''"
    | (d) "viewMode m \<noteq> ModeDashboard" "k = ''d''"
    | (filtering) "\<not> (k = ''q'' \<or> k = ''ctrl+c'')" "viewMode m \<noteq> ModeDashboard" "k \<noteq> ''tab''"
        "k \<noteq> ''d''" "activePane m = PaneList" "settingFilter (list m)"
    | (lst) "\<not> (k = ''q'' \<or> k = ''ctrl+c'')" "viewMode m \<noteq> ModeDashboard" "k \<noteq> ''tab''"
        "k \<noteq> ''d''" "activePane m = PaneList" "\<not> settingFilter (list m)"
    | (content) "\<not> (k = ''q'' \<or> k = ''ctrl+c'')" "viewMode m \<noteq> ModeDashboard" "k \<noteq> ''tab''"
        "k \<noteq> ''d''" "activePane m = PaneContent"
    by (cases "activePane m") auto
  then show ?thesis
  proof cases
    case quit
    with assms show ?thesis by (auto simp: UpdateKey_quit split: option.splits)
  next
    case dash
    with assms show ?thesis by (auto simp: UpdateKey_dashboard split: if_splits)
  next
    case tab
    with assms show ?thesis by (auto simp: UpdateKey_tab)
  next
    case d
    with assms show ?thesis by (auto simp: UpdateKey_d updateListItems_frame)
  next
    case filtering
    with assms show ?thesis by (auto simp: UpdateKey_filtering Batch_set)
  next
    case lst
    obtain m1 w1 ks where kp: "keyPaneList k (m, w) = ((m1, w1), ks)"
      by (metis prod.exhaust)
    from assms lst kp keyPaneList_chan [OF kp] show ?thesis
      by (auto simp: UpdateKey_list Batch_set)
  next
    case content
    with assms show ?thesis by (auto simp: UpdateKey_content Batch_set split: if_splits)
  qed
qed

lemma Update_chan:
  assumes "Update L e (m, w) = ((m', w'), cs)"
  shows "nextId w \<le> nextId w' \<and>
         (logChan m' = logChan m \<and> nextId w' = nextId w \<or>
          logChan m' = Some (nextId w) \<and> nextId w' = Suc (nextId w)) \<and>
         (\<forall>x. WaitForLogLine x \<in> set cs \<longrightarrow> x = logChan m')"
proof (cases e)
  case (KeyMsg k)
  with assms show ?thesis using UpdateKey_chan [of L k m w m' w' cs] by simp
next
  case (LogLineMsg line)
  with assms show ?thesis by (auto simp: appendLogLine_def Let_def split: if_splits)
next
  case (ActionResultMsg a b)
  with assms show ?thesis by (cases a) auto
next
  case SpinnerTickMsg
  with assms show ?thesis by (auto simp: Batch_set split: prod.splits)
next
  case (ConfigMsg x)
  with assms show ?thesis by (auto simp: Let_def split: if_splits)
qed (use assms in \<open>auto simp: Let_def updateListItems_frame\<close>)


lemma count_list_remove1:
  "count_list (remove1 x xs) y =
     (if x = y \<and> x \<in> set xs then count_list xs y - 1 else count_list xs y)"
  by (induction xs) auto

lemma made_iff:
  "made c \<longleftrightarrow>
     (\<forall>k. logChan (ctl c) = Some k \<longrightarrow> k < nextId (env c)) \<and>
     (\<forall>k. WaitForLogLine (Some k) \<in> set (pending c) \<longrightarrow> k < nextId (env c))"
proof -
  have "list_all (\<lambda>p. case p of WaitForLogLine (Some k) \<Rightarrow> k < n | _ \<Rightarrow> True) ps \<longleftrightarrow>
        (\<forall>k. WaitForLogLine (Some k) \<in> set ps \<longrightarrow> k < n)" for n ps
    by (induction ps) (auto split: cmd.splits option.splits)
  then show ?thesis by (auto simp: made_def split: option.splits)
qed

lemma fold_msg_superseded:
  assumes c: "\<forall>k. logChan (ctl c) = Some k \<longrightarrow> k < nextId (env c)"
    and ps: "\<forall>k. WaitForLogLine (Some k) \<in> set ps \<longrightarrow> k < nextId (env c)"
    and ch: "logChan (ctl c) \<noteq> Some ch" "ch < nextId (env c)"
  shows "made (fold_msg L e ps c) \<and> logChan (ctl (fold_msg L e ps c)) \<noteq> Some ch \<and>
         ch < nextId (env (fold_msg L e ps c)) \<and>
         waits ch (fold_msg L e ps c) = count_list ps (WaitForLogLine (Some ch))"
proof -
  obtain m' w' cs where u: "Update L e (ctl c, env c) = ((m', w'), cs)"
    by (metis prod.exhaust)
  then have f: "fold_msg L e ps c = \<lparr>ctl = m', env = w', pending = ps @ cs\<rparr>"
    by (simp add: fold_msg_def)
  note uc = Update_chan [OF u]
  from uc have le: "nextId (env c) \<le> nextId w'" by simp
  from uc have cs: "\<forall>x. WaitForLogLine x \<in> set cs \<longrightarrow> x = logChan m'" by simp
  from uc c have m': "\<forall>k. logChan m' = Some k \<longrightarrow> k < nextId w'" by auto
  from uc ch have ne: "logChan m' \<noteq> Some ch" by auto
  from ps le have ps': "\<forall>k. WaitForLogLine (Some k) \<in> set ps \<longrightarrow> k < nextId w'" by auto
  from cs m' have cs': "\<forall>k. WaitForLogLine (Some k) \<in> set cs \<longrightarrow> k < nextId w'" by auto
  from cs ne have "WaitForLogLine (Some ch) \<notin> set cs" by auto
  then have z: "count_list cs (WaitForLogLine (Some ch)) = 0" by (rule count_notin)
  have "made (fold_msg L e ps c)"
    unfolding made_iff f using m' ps' cs' by auto
  moreover have "waits ch (fold_msg L e ps c) = count_list ps (WaitForLogLine (Some ch))"
    unfolding f waits_def using z by simp
  ultimately show ?thesis using ne le ch(2) f by simp
qed

lemma step_superseded:
  assumes "made c" "logChan (ctl c) \<noteq> Some ch" "ch < nextId (env c)" "step L ev c = Some c'"
  shows "made c' \<and> logChan (ctl c') \<noteq> Some ch \<and> ch < nextId (env c') \<and>
         length (linesFrom ch [ev]) + waits ch c' = waits ch c"
proof (cases ev)
  case (Deliver e)
  with assms(4) have c': "c' = fold_msg L e (pending c) c" by (simp split: if_splits)
  from assms(1) have "\<forall>k. logChan (ctl c) = Some k \<longrightarrow> k < nextId (env c)"
    "\<forall>k. WaitForLogLine (Some k) \<in> set (pending c) \<longrightarrow> k < nextId (env c)"
    by (simp_all add: made_iff)
  from fold_msg_superseded [OF this assms(2,3), of L e] Deliver c' show ?thesis
    by (simp add: waits_def)
next
  case (LineFrom ch' line)
  let ?ps = "remove1 (WaitForLogLine (Some ch')) (pending c)"
  from LineFrom assms(4) have en: "WaitForLogLine (Some ch') \<in> set (pending c)"
    by (auto simp: StreamLogs_select_def split: if_splits)
  from LineFrom assms(4) have c': "c' = fold_msg L (waitForLogLine (Some ch') (Received line)) ?ps c"
    by (simp split: if_splits)
  from assms(1) have a: "\<forall>k. logChan (ctl c) = Some k \<longrightarrow> k < nextId (env c)"
    by (simp add: made_iff)
  from assms(1) have "\<forall>k. WaitForLogLine (Some k) \<in> set (pending c) \<longrightarrow> k < nextId (env c)"
    by (simp add: made_iff)
  then have b: "\<forall>k. WaitForLogLine (Some k) \<in> set ?ps \<longrightarrow> k < nextId (env c)"
    by (meson notin_set_remove1)
  from en have "count_list (pending c) (WaitForLogLine (Some ch')) \<noteq> 0"
    by (simp add: count_list_0_iff)
  then have "0 < count_list (pending c) (WaitForLogLine (Some ch'))"
    by simp
  with fold_msg_superseded [OF a b assms(2,3), of L "waitForLogLine (Some ch') (Received line)"]
    LineFrom c' en show ?thesis
    by (auto simp: waits_def count_list_remove1)
qed

lemma linesFrom_Cons:
  "length (linesFrom ch (ev # es)) = length (linesFrom ch [ev]) + length (linesFrom ch es)"
  by (cases ev) auto

text \<open>
  How far a superseded channel can still be read. Once a subscription's channel is no
  longer the model's channel, no command the controller issues reads it again, and it
  never becomes the model's channel again. The only reads of it are the waits that
  were already outstanding when it was superseded: in every run from then on, the
  lines delivered from the old channel and the waits still outstanding on it add up to
  the waits outstanding at the start.
\<close>

lemma superseded_channel_reads_bounded:
  assumes "made c" "logChan (ctl c) \<noteq> Some ch" "ch < nextId (env c)" "run L es c = Some c'"
  shows "length (linesFrom ch es) + waits ch c' = waits ch c \<and>
         logChan (ctl c') \<noteq> Some ch \<and> made c'"
  using assms
proof (induction es arbitrary: c)
  case Nil
  then show ?case by simp
next
  case (Cons ev es)
  from Cons.prems(4) obtain c1 where s: "step L ev c = Some c1" and r: "run L es c1 = Some c'"
    by (auto split: option.splits)
  from step_superseded [OF Cons.prems(1,2,3) s]
  have c1: "made c1" "logChan (ctl c1) \<noteq> Some ch" "ch < nextId (env c1)"
    and n: "length (linesFrom ch [ev]) + waits ch c1 = waits ch c"
    by simp_all
  from Cons.IH [OF c1 r] n linesFrom_Cons [of ch ev es] show ?case
    by arith
qed

lemma superseded_channel_reads_bounded_at_switch:
  "length (linesFrom 0 [LineFrom 0 ''docker: late line'']) + waits 0 late = waits 0 switched \<and>
   waits 0 switched = 1 \<and> logChan (ctl late) \<noteq> Some 0"
proof -
  have h: "made switched" "logChan (ctl switched) \<noteq> Some 0" "0 < nextId (env switched)"
    by code_simp+
  have r: "run refLib [LineFrom 0 ''docker: late line''] switched = Some late"
    by code_simp
  have w: "waits 0 switched = 1" by code_simp
  from superseded_channel_reads_bounded [OF h r] w show ?thesis by blast
qed

text \<open>
  Claim C1, at a run where the code breaks it. The logs of \<open>docker.service\<close> are
  streaming on subscription 0; the user switches to \<open>nginx.service\<close>, which cancels the
  context of subscription 0, clears the buffer and makes subscription 1. The wait
  issued for subscription 0 is still outstanding, so in the \<open>select\<close> of its
  \<open>StreamLogs\<close> the send can proceed as well as the cancellation; the line it sends
  after the switch is appended to the buffer that now belongs to \<open>nginx.service\<close>.
\<close>

theorem late_line_after_switch:
  "run refLib switch_run config0 = Some switched \<and>
   streamingUnit (ctl switched) = ''nginx.service'' \<and> logLines (ctl switched) = [] \<and>
   logChan (ctl switched) = Some 1 \<and> cancelled (env switched) = [0] \<and>
   streams (env switched) = [(0, ''docker.service''), (1, ''nginx.service'')] \<and>
   WaitForLogLine (Some 0) \<in> set (pending switched) \<and>
   run refLib [LineFrom 0 ''docker: late line''] switched = Some late \<and>
   streamingUnit (ctl late) = ''nginx.service'' \<and>
   logLines (ctl late) = [''docker: late line''] \<and>
   StreamLogs_select True True = [CtxDone, SendLine]"
  by code_simp

end
